theory Spec2Isabelle
  imports Complex_Main "HOL-Library.Multiset"
begin

section \<open>Python values used by \<open>article_summarizer.py\<close>\<close>

text \<open>
  Counts and the document number are Python's unbounded integers, modelled as \<open>int\<close>.
  Scores, weights and percentages are Python floats. The module does not define their
  arithmetic, it uses the interpreter's: the model takes the float operations it uses
  as parameters, over a type \<open>'f\<close> of float values, and says nothing about how they
  round. What is proved for every choice of the operations holds for the interpreter's.
  The values are linearly ordered, as the floats are by \<open><\<close> and \<open>==\<close> when \<open>0.0\<close> and \<open>-0.0\<close>
  count as one value; NaN, which is not comparable, is not among them: \<open>tf\<close> and \<open>idf\<close> are
  taken to return numbers, and the sums and products of the module to stay numbers.
\<close>

record 'f arithmetic =
  float_int :: "int \<Rightarrow> 'f"
  float_literal :: "real \<Rightarrow> 'f"
  float_add :: "'f \<Rightarrow> 'f \<Rightarrow> 'f"
  float_mul :: "'f \<Rightarrow> 'f \<Rightarrow> 'f"
  float_truediv :: "'f \<Rightarrow> 'f \<Rightarrow> 'f"
  int_truediv :: "int \<Rightarrow> int \<Rightarrow> 'f"
  float_to_int :: "'f \<Rightarrow> int"

text \<open>
  \<open>float_int i\<close> is the float an \<open>int\<close> operand \<open>i\<close> becomes when it meets a float (and
  stands for the \<open>int\<close> itself where the code has one among floats, as in \<open>return 0\<close>);
  \<open>float_literal d\<close> is the float that the decimal literal \<open>d\<close> denotes;
  \<open>float_add\<close>, \<open>float_mul\<close> and \<open>float_truediv\<close> are \<open>+\<close>, \<open>*\<close> and \<open>/\<close> on floats (the
  latter for a divisor that is not zero); \<open>int_truediv\<close> is \<open>/\<close> on two \<open>int\<close>s; and
  \<open>float_to_int x\<close> is \<open>int(x)\<close>.

  Division (\<open>/\<close>, the true division of Python 3) raises \<open>ZeroDivisionError\<close> on a zero
  divisor; that is the only exception the module itself can raise, and it is a branch
  of the model. Both divisions of the module have an \<open>int\<close> divisor.
\<close>

datatype py_error = ZeroDivisionError

definition py_truediv :: "('f, 'm) arithmetic_scheme \<Rightarrow> 'f \<Rightarrow> int \<Rightarrow> py_error + 'f" where
  "py_truediv A a b =
     (if b = 0 then Inl ZeroDivisionError else Inr (float_truediv A a (float_int A b)))"

definition py_int_truediv :: "('f, 'm) arithmetic_scheme \<Rightarrow> int \<Rightarrow> int \<Rightarrow> py_error + 'f" where
  "py_int_truediv A a b = (if b = 0 then Inl ZeroDivisionError else Inr (int_truediv A a b))"

text \<open>
  Exact arithmetic on the reals is one choice of the operations; there \<open>int(x)\<close> is
  truncation towards zero.
\<close>

definition py_int :: "real \<Rightarrow> int" where
  "py_int x = (if 0 \<le> x then \<lfloor>x\<rfloor> else \<lceil>x\<rceil>)"

text \<open>
  The slice \<open>xs[0:n]\<close>: a negative stop counts from the end of the list (and is clipped
  at 0), a stop beyond the end is clipped at the length.
\<close>

definition py_slice_to :: "'a list \<Rightarrow> int \<Rightarrow> 'a list" where
  "py_slice_to xs n =
     (if n < 0 then take (nat (int (length xs) + n)) xs else take (nat n) xs)"

section \<open>Data model\<close>

type_synonym frequency = "string \<rightharpoonup> int"

text \<open>A two-element list \<open>[score, sentence]\<close>.\<close>

type_synonym 'f score_entry = "'f \<times> string"

text \<open>
  The modules \<open>tokenizer\<close> and \<open>tf_idf\<close> are imported by the summarizer and are not part
  of its file; their four functions are parameters of the model, taken as total
  functions that raise nothing and change nothing. They are carried together with the
  float operations.
  \<open>tokenize_word s b\<close> stands for \<open>tokenize_word(s, only_noun=b)\<close>.
\<close>

record 'f collaborators = "'f arithmetic" +
  tokenize_sentence :: "string \<Rightarrow> string list"
  tokenize_word :: "string \<Rightarrow> bool \<Rightarrow> string list"
  tf :: "string \<Rightarrow> frequency \<Rightarrow> 'f"
  idf :: "string \<Rightarrow> int \<Rightarrow> frequency \<Rightarrow> 'f"

text \<open>
  The class body binds two mutable objects, \<open>__sentence_scores = []\<close> and
  \<open>__word_frequency = {}\<close>, once, when the class is created. They are attributes of the
  class, so they live as long as the process and are reached through every instance
  that has no attribute of the same name.
\<close>

record 'f class_attrs =
  cls_sentence_scores :: "'f score_entry list"
  cls_word_frequency :: frequency

definition fresh_class :: "'f class_attrs" where
  "fresh_class = \<lparr>cls_sentence_scores = [], cls_word_frequency = Map.empty\<rparr>"

text \<open>
  The attributes \<open>__init__\<close> binds on the instance. \<open>document_frequency\<close> is the caller's
  dictionary itself (it is updated in place), so the field holds what the caller sees
  after the call. \<open>sentence_scores\<close> is the instance attribute \<open>__sentence_scores\<close> bound
  by the assignment of the sorted list. Its entries are the very objects of the list of
  the class, which a later construction reweights in place; the field holds their
  values at the end of this construction, and nothing reads the attribute afterwards.
\<close>

record 'f summarizer =
  sentences :: "string list"
  document_number :: int
  document_frequency :: frequency
  sentence_scores :: "'f score_entry list"
  ranked_sentences :: "string list"

section \<open>\<open>__init__\<close>: counting\<close>

text \<open>
  Lines 40 to 46, the loop over the words of one sentence. \<open>self.__word_frequency\<close> is
  read through a new instance, so it is the dictionary of the class; \<open>word_set\<close> is the
  local set, kept as a list without repetitions.
\<close>

fun count_words :: "string list \<Rightarrow> frequency \<times> string list \<Rightarrow> frequency \<times> string list" where
  "count_words [] (word_frequency, word_set) = (word_frequency, word_set)"
| "count_words (word # words) (word_frequency, word_set) =
     count_words words
       ((case word_frequency word of
           None \<Rightarrow> word_frequency(word \<mapsto> 1)
         | Some c \<Rightarrow> word_frequency(word \<mapsto> c + 1)),
        List.insert word word_set)"

text \<open>Lines 38 to 46, the loop over the sentences.\<close>

fun count_sentences ::
  "'f collaborators \<Rightarrow> string list \<Rightarrow> frequency \<times> string list \<Rightarrow> frequency \<times> string list" where
  "count_sentences C [] acc = acc"
| "count_sentences C (sentence # rest) acc =
     count_sentences C rest (count_words (tokenize_word C sentence True) acc)"

text \<open>Lines 48 to 52, the loop over \<open>word_set\<close> that updates the caller's dictionary.\<close>

fun count_documents :: "string list \<Rightarrow> frequency \<Rightarrow> frequency" where
  "count_documents [] df = df"
| "count_documents (word # word_set) df =
     count_documents word_set
       (case df word of None \<Rightarrow> df(word \<mapsto> 1) | Some c \<Rightarrow> df(word \<mapsto> c + 1))"

section \<open>Scoring\<close>

text \<open>
  \<open>__word_score\<close> and \<open>__sentence_score\<close> read \<open>self.__word_frequency\<close> (the dictionary of
  the class), \<open>self.document_number\<close> and \<open>self.document_frequency\<close>; these are the
  arguments \<open>word_frequency\<close>, \<open>dn\<close> and \<open>df\<close>.
\<close>

definition word_score ::
  "'f collaborators \<Rightarrow> frequency \<Rightarrow> int \<Rightarrow> frequency \<Rightarrow> string \<Rightarrow> 'f" where
  "word_score C word_frequency dn df word =
     float_mul C (tf C word word_frequency) (idf C word dn df)"

text \<open>
  In \<open>__sentence_score\<close>, \<open>total\<close> starts as the \<open>int\<close> 0 and every \<open>+=\<close> adds a float;
  the result is the \<open>int\<close> 0 for a sentence without words.
\<close>

definition sentence_score ::
  "'f collaborators \<Rightarrow> frequency \<Rightarrow> int \<Rightarrow> frequency \<Rightarrow> string \<Rightarrow> py_error + 'f" where
  "sentence_score C word_frequency dn df sentence =
     (let words = tokenize_word C sentence True in
      if words = [] then Inr (float_int C 0)
      else py_truediv C
             (fold (\<lambda>word total. float_add C total (word_score C word_frequency dn df word))
                words (float_int C 0))
             (int (length words)))"

text \<open>
  Lines 54 to 56: one entry per sentence is appended to \<open>self.__sentence_scores\<close>, which
  at this point is still the list of the class.
\<close>

fun score_sentences ::
  "'f collaborators \<Rightarrow> frequency \<Rightarrow> int \<Rightarrow> frequency \<Rightarrow> string list \<Rightarrow> 'f score_entry list
     \<Rightarrow> py_error + 'f score_entry list" where
  "score_sentences C word_frequency dn df [] scores = Inr scores"
| "score_sentences C word_frequency dn df (sentence # rest) scores =
     (case sentence_score C word_frequency dn df sentence of
        Inl e \<Rightarrow> Inl e
      | Inr s \<Rightarrow> score_sentences C word_frequency dn df rest (scores @ [(s, sentence)]))"

section \<open>Positional weighting\<close>

text \<open>
  Lines 95 to 114, the chain of conditionals on \<open>distribution\<close>: it is compared with the
  \<open>int\<close> 0 and with the floats of the decimal literals.
\<close>

definition position_weight :: "'f::linorder collaborators \<Rightarrow> 'f \<Rightarrow> 'f" where
  "position_weight C distribution =
     (if float_int C 0 \<le> distribution \<and> distribution < float_literal C 0.1
      then float_literal C 0.17
      else if float_literal C 0.1 \<le> distribution \<and> distribution < float_literal C 0.2
      then float_literal C 0.23
      else if float_literal C 0.2 \<le> distribution \<and> distribution < float_literal C 0.3
      then float_literal C 0.14
      else if float_literal C 0.3 \<le> distribution \<and> distribution < float_literal C 0.4
      then float_literal C 0.08
      else if float_literal C 0.4 \<le> distribution \<and> distribution < float_literal C 0.5
      then float_literal C 0.05
      else if float_literal C 0.5 \<le> distribution \<and> distribution < float_literal C 0.6
      then float_literal C 0.04
      else if float_literal C 0.6 \<le> distribution \<and> distribution < float_literal C 0.7
      then float_literal C 0.06
      else if float_literal C 0.7 \<le> distribution \<and> distribution < float_literal C 0.8
      then float_literal C 0.04
      else if float_literal C 0.8 \<le> distribution \<and> distribution < float_literal C 0.9
      then float_literal C 0.04
      else float_literal C 0.15)"

text \<open>
  The loop of \<open>__weigh_sentences_by_position\<close> over \<open>enumerate(self.__sentence_scores)\<close>;
  \<open>n\<close> is the length of the whole list and \<open>index\<close> the position of the next entry.
  \<open>index / len(...)\<close> divides two \<open>int\<close>s and \<open>score *= weight\<close> multiplies two floats.
\<close>

fun weigh_from ::
  "'f::linorder collaborators \<Rightarrow> nat \<Rightarrow> nat \<Rightarrow> 'f score_entry list
     \<Rightarrow> py_error + 'f score_entry list" where
  "weigh_from C n index [] = Inr []"
| "weigh_from C n index (entry # rest) =
     (case py_int_truediv C (int index) (int n) of
        Inl e \<Rightarrow> Inl e
      | Inr distribution \<Rightarrow>
          (case weigh_from C n (Suc index) rest of
             Inl e \<Rightarrow> Inl e
           | Inr rest' \<Rightarrow>
               Inr ((float_mul C (fst entry) (position_weight C distribution), snd entry)
                    # rest')))"

definition weigh_sentences_by_position ::
  "'f::linorder collaborators \<Rightarrow> 'f score_entry list \<Rightarrow> py_error + 'f score_entry list" where
  "weigh_sentences_by_position C scores = weigh_from C (length scores) 0 scores"

section \<open>\<open>__init__\<close>\<close>

text \<open>
  \<open>sorted(..., key=itemgetter(0), reverse=True)\<close> is a stable sort by descending score:
  entries with equal scores keep their order. That is \<open>rev\<close> of the stable ascending
  \<open>sort_key\<close> of the reversed list, which is how the interpreter does it.

  The result pairs the class attributes after the call with the new instance. The list
  of the class is extended and reweighted in place and is not replaced by the sorted
  copy, which is bound on the instance only.
\<close>

definition sorted_reverse :: "('a \<Rightarrow> 'k::linorder) \<Rightarrow> 'a list \<Rightarrow> 'a list" where
  "sorted_reverse key xs = rev (sort_key key (rev xs))"

definition init ::
  "'f::linorder collaborators \<Rightarrow> 'f class_attrs \<Rightarrow> string \<Rightarrow> int \<Rightarrow> frequency
     \<Rightarrow> py_error + ('f class_attrs \<times> 'f summarizer)" where
  "init C cls article document_number0 document_frequency0 =
     (let sents = tokenize_sentence C article;
          dn = document_number0 + 1;
          counted = count_sentences C sents (cls_word_frequency cls, []);
          word_frequency = fst counted;
          word_set = snd counted;
          df = count_documents word_set document_frequency0
      in case score_sentences C word_frequency dn df sents (cls_sentence_scores cls) of
           Inl e \<Rightarrow> Inl e
         | Inr scores \<Rightarrow>
             (case weigh_sentences_by_position C scores of
                Inl e \<Rightarrow> Inl e
              | Inr weighted \<Rightarrow>
                  (let ranked = sorted_reverse fst weighted in
                   Inr (\<lparr>cls_sentence_scores = weighted, cls_word_frequency = word_frequency\<rparr>,
                        \<lparr>sentences = sents,
                         document_number = dn,
                         document_frequency = df,
                         sentence_scores = ranked,
                         ranked_sentences = map snd ranked\<rparr>))))"

section \<open>\<open>get_top_sentences\<close>\<close>

text \<open>
  The method reads \<open>self.sentences\<close> and \<open>self.ranked_sentences\<close> and builds a new list.
  It is modelled as a step on the whole state (class attributes and instance), which it
  hands back. \<open>top_n\<close> is the local \<open>n\<close>, \<open>int(percentage / 100 * len(self.sentences))\<close>:
  a float division by the \<open>int\<close> 100, a float product with the \<open>int\<close> length, and \<open>int\<close>
  of the result (which raises for an infinity; the percentage is taken to be one for
  which it returns).
\<close>

definition top_n :: "'f collaborators \<Rightarrow> 'f summarizer \<Rightarrow> 'f \<Rightarrow> int" where
  "top_n C self percentage =
     float_to_int C
       (float_mul C (float_truediv C percentage (float_int C 100))
          (float_int C (int (length (sentences self)))))"

definition get_top_sentences ::
  "'f collaborators \<Rightarrow> 'f class_attrs \<times> 'f summarizer \<Rightarrow> 'f
     \<Rightarrow> string list \<times> ('f class_attrs \<times> 'f summarizer)" where
  "get_top_sentences C st percentage =
     (let self = snd st;
          n = top_n C self percentage;
          top_n_sentences =
            filter (\<lambda>sentence. sentence \<in> set (py_slice_to (ranked_sentences self) n))
              (sentences self)
      in (top_n_sentences, st))"

section \<open>Example collaborators\<close>

text \<open>
  A small instance of the four imported functions, for concrete runs: sentences end at
  a full stop, words are separated by blanks, \<open>tf\<close> is the count of the word and \<open>idf\<close>
  the ratio of the document number to the word's document frequency. Its arithmetic is
  the exact one on the reals.
\<close>

fun split_on :: "char \<Rightarrow> string \<Rightarrow> string \<Rightarrow> string list" where
  "split_on sep [] cur = (if cur = [] then [] else [cur])"
| "split_on sep (c # cs) cur =
     (if c = sep then (if cur = [] then split_on sep cs [] else cur # split_on sep cs [])
      else split_on sep cs (cur @ [c]))"

definition example :: "real collaborators" where
  "example =
     \<lparr>float_int = real_of_int,
      float_literal = (\<lambda>d. d),
      float_add = (+),
      float_mul = (*),
      float_truediv = (/),
      int_truediv = (\<lambda>a b. real_of_int a / real_of_int b),
      float_to_int = py_int,
      tokenize_sentence = (\<lambda>article. split_on (CHR ''.'') article []),
      tokenize_word = (\<lambda>sentence only_noun. split_on (CHR '' '') sentence []),
      tf = (\<lambda>word word_frequency.
              real_of_int (case word_frequency word of None \<Rightarrow> 0 | Some c \<Rightarrow> c)),
      idf = (\<lambda>word n df.
               real_of_int n / real_of_int (case df word of None \<Rightarrow> 1 | Some c \<Rightarrow> c))\<rparr>"

section \<open>Notions used in the statements\<close>

text \<open>The words of an article, sentence by sentence, as \<open>__init__\<close> meets them.\<close>

definition article_words :: "'f collaborators \<Rightarrow> string \<Rightarrow> string list" where
  "article_words C article =
     concat (map (\<lambda>sentence. tokenize_word C sentence True) (tokenize_sentence C article))"

text \<open>What the weighting loop does to the entry it meets at position \<open>fst p\<close> of \<open>n\<close>.\<close>

definition weighted_entry ::
  "'f::linorder collaborators \<Rightarrow> nat \<Rightarrow> nat \<times> 'f score_entry \<Rightarrow> 'f score_entry" where
  "weighted_entry C n p =
     (float_mul C (fst (snd p)) (position_weight C (int_truediv C (int (fst p)) (int n))),
      snd (snd p))"

text \<open>
  The raw score of a sentence written out down to the calls of \<open>tf\<close> and \<open>idf\<close>: the mean
  over the words of the sentence of \<open>tf(word, word_frequency) * idf(word, dn, df)\<close>, and
  the \<open>int\<close> 0 when there is no word.
\<close>

definition mean_tf_idf ::
  "'f collaborators \<Rightarrow> frequency \<Rightarrow> int \<Rightarrow> frequency \<Rightarrow> string \<Rightarrow> 'f" where
  "mean_tf_idf C word_frequency dn df sentence =
     (if tokenize_word C sentence True = [] then float_int C 0
      else float_truediv C
             (fold (\<lambda>word total.
                      float_add C total
                        (float_mul C (tf C word word_frequency) (idf C word dn df)))
                (tokenize_word C sentence True) (float_int C 0))
             (float_int C (int (length (tokenize_word C sentence True)))))"

text \<open>
  The step table as the specification gives it: rows of half-open buckets \<open>[lo, hi)\<close>
  with their weight, looked up in order, and the default weight for every position
  that no row holds.
\<close>

definition weight_table :: "'f collaborators \<Rightarrow> ('f \<times> 'f \<times> 'f) list" where
  "weight_table C =
     [(float_int C 0, float_literal C 0.1, float_literal C 0.17),
      (float_literal C 0.1, float_literal C 0.2, float_literal C 0.23),
      (float_literal C 0.2, float_literal C 0.3, float_literal C 0.14),
      (float_literal C 0.3, float_literal C 0.4, float_literal C 0.08),
      (float_literal C 0.4, float_literal C 0.5, float_literal C 0.05),
      (float_literal C 0.5, float_literal C 0.6, float_literal C 0.04),
      (float_literal C 0.6, float_literal C 0.7, float_literal C 0.06),
      (float_literal C 0.7, float_literal C 0.8, float_literal C 0.04),
      (float_literal C 0.8, float_literal C 0.9, float_literal C 0.04)]"

fun table_lookup :: "'f::linorder \<Rightarrow> ('f \<times> 'f \<times> 'f) list \<Rightarrow> 'f \<Rightarrow> 'f" where
  "table_lookup otherwise [] x = otherwise"
| "table_lookup otherwise ((lo, hi, w) # rows) x =
     (if lo \<le> x \<and> x < hi then w else table_lookup otherwise rows x)"

text \<open>
  What float arithmetic does with a percentage of 0 and \<open>N\<close> sentences: \<open>0 / 100\<close> is 0,
  \<open>0 * N\<close> is 0 and \<open>int\<close> of 0 is 0.
\<close>

definition zero_laws :: "'f collaborators \<Rightarrow> nat \<Rightarrow> bool" where
  "zero_laws C N =
     (float_truediv C (float_int C 0) (float_int C 100) = float_int C 0 \<and>
      float_mul C (float_int C 0) (float_int C (int N)) = float_int C 0 \<and>
      float_to_int C (float_int C 0) = 0)"

section \<open>Concrete runs\<close>

text \<open>
  Two articles summarized one after the other in one process, as a caller that builds
  corpus statistics does: the second construction finds the class attributes as the
  first left them, and is given the same dictionary and the new document count.
\<close>

definition first_run :: "py_error + (real class_attrs \<times> real summarizer)" where
  "first_run = init example fresh_class ''a a a'' 0 Map.empty"

definition first_state :: "real class_attrs \<times> real summarizer" where
  "first_state = projr first_run"

definition second_run :: "py_error + (real class_attrs \<times> real summarizer)" where
  "second_run =
     init example (fst first_state) ''b'' 1 (document_frequency (snd first_state))"

definition second_state :: "real class_attrs \<times> real summarizer" where
  "second_state = projr second_run"

text \<open>One article of two sentences, summarized first in its process.\<close>

definition short_run :: "py_error + (real class_attrs \<times> real summarizer)" where
  "short_run = init example fresh_class ''a.b'' 0 Map.empty"

definition short_state :: "real class_attrs \<times> real summarizer" where
  "short_state = projr short_run"

text \<open>
  One article of three sentences, the first two without any word, summarized first in
  its process: the two wordless sentences tie at score 0.
\<close>

definition tie_run :: "py_error + (real class_attrs \<times> real summarizer)" where
  "tie_run = init example fresh_class '' .  .a'' 0 Map.empty"

section \<open>The loops of \<open>__init__\<close> return\<close>

lemma sentence_score_returns: "\<exists>x. sentence_score C word_frequency dn df s = Inr x"
  by (simp add: sentence_score_def Let_def py_truediv_def)

text \<open>The score of a sentence, down to the calls of \<open>tf\<close> and \<open>idf\<close>.\<close>

lemma sentence_score_mean:
  "sentence_score C word_frequency dn df s = Inr (mean_tf_idf C word_frequency dn df s)"
  by (simp add: sentence_score_def mean_tf_idf_def word_score_def Let_def py_truediv_def)

lemma score_sentences_returns:
  "\<exists>new. score_sentences C word_frequency dn df ss scores = Inr (scores @ new) \<and>
     list_all2 (\<lambda>s e. sentence_score C word_frequency dn df s = Inr (fst e) \<and> snd e = s) ss new"
proof (induction ss arbitrary: scores)
  case Nil
  then show ?case by simp
next
  case (Cons s ss)
  obtain x where x: "sentence_score C word_frequency dn df s = Inr x"
    using sentence_score_mean by (rule that)
  obtain new where new:
    "score_sentences C word_frequency dn df ss (scores @ [(x, s)]) = Inr ((scores @ [(x, s)]) @ new)"
    "list_all2 (\<lambda>s e. sentence_score C word_frequency dn df s = Inr (fst e) \<and> snd e = s) ss new"
    using Cons.IH by blast
  show ?case
    by (rule exI [of _ "(x, s) # new"]) (simp add: x new)
qed

lemma weigh_from_returns:
  "n \<noteq> 0 \<Longrightarrow> weigh_from C n i es = Inr (map (weighted_entry C n) (enumerate i es))"
  by (induction es arbitrary: i) (simp_all add: py_int_truediv_def weighted_entry_def)

lemma weigh_returns:
  "weigh_sentences_by_position C es = Inr (map (weighted_entry C (length es)) (enumerate 0 es))"
proof (cases es)
  case Nil
  then show ?thesis by (simp add: weigh_sentences_by_position_def)
next
  case (Cons e rest)
  then have "length es \<noteq> 0" by simp
  then show ?thesis
    unfolding weigh_sentences_by_position_def by (rule weigh_from_returns)
qed

lemma map_snd_weighted: "map snd (map (weighted_entry C n) (enumerate i es)) = map snd es"
  by (induction es arbitrary: i) (simp_all add: weighted_entry_def)

lemma scored_sentences:
  "list_all2 (\<lambda>s e. f s = Inr (fst e) \<and> snd e = s) ss new \<Longrightarrow> map snd new = ss"
  by (induction ss new rule: list_all2_induct) simp_all

text \<open>The descending sort rearranges, is descending and is stable.\<close>

lemma mset_sorted_reverse: "mset (sorted_reverse key xs) = mset xs"
  by (simp add: sorted_reverse_def)

lemma length_sorted_reverse: "length (sorted_reverse key xs) = length xs"
  by (simp add: sorted_reverse_def)

lemma sorted_reverse_descending: "sorted (rev (map key (sorted_reverse key xs)))"
  by (simp add: sorted_reverse_def rev_map)

lemma sorted_reverse_stable:
  "filter (\<lambda>x. key x = k) (sorted_reverse key xs) = filter (\<lambda>x. key x = k) xs"
proof -
  have "filter (\<lambda>x. key x = k) (sort_key key (rev xs)) = filter (\<lambda>x. key x = k) (rev xs)"
    by (rule sort_key_stable)
  then show ?thesis
    by (simp add: sorted_reverse_def rev_filter [symmetric])
qed

lemma init_result:
  obtains cls' self new where
    "init C cls article d df0 = Inr (cls', self)"
    "sentences self = tokenize_sentence C article"
    "document_number self = d + 1"
    "cls_word_frequency cls' = fst (count_sentences C (sentences self) (cls_word_frequency cls, []))"
    "document_frequency self =
       count_documents (snd (count_sentences C (sentences self) (cls_word_frequency cls, []))) df0"
    "list_all2 (\<lambda>s e. sentence_score C (cls_word_frequency cls') (d + 1) (document_frequency self) s
                       = Inr (fst e) \<and> snd e = s) (sentences self) new"
    "cls_sentence_scores cls' =
       map (weighted_entry C (length (cls_sentence_scores cls @ new)))
         (enumerate 0 (cls_sentence_scores cls @ new))"
    "sentence_scores self = sorted_reverse fst (cls_sentence_scores cls')"
    "ranked_sentences self = map snd (sentence_scores self)"
proof -
  let ?sents = "tokenize_sentence C article"
  let ?counted = "count_sentences C ?sents (cls_word_frequency cls, [])"
  let ?df = "count_documents (snd ?counted) df0"
  obtain new where new:
    "score_sentences C (fst ?counted) (d + 1) ?df ?sents (cls_sentence_scores cls)
       = Inr (cls_sentence_scores cls @ new)"
    "list_all2 (\<lambda>s e. sentence_score C (fst ?counted) (d + 1) ?df s = Inr (fst e) \<and> snd e = s)
       ?sents new"
    using score_sentences_returns by blast
  let ?weighted = "map (weighted_entry C (length (cls_sentence_scores cls @ new)))
                     (enumerate 0 (cls_sentence_scores cls @ new))"
  let ?ranked = "sorted_reverse fst ?weighted"
  let ?cls' = "\<lparr>cls_sentence_scores = ?weighted, cls_word_frequency = fst ?counted\<rparr>"
  let ?self = "\<lparr>sentences = ?sents, document_number = d + 1, document_frequency = ?df,
                 sentence_scores = ?ranked, ranked_sentences = map snd ?ranked\<rparr>"
  have "init C cls article d df0 = Inr (?cls', ?self)"
    by (simp add: init_def Let_def new(1) weigh_returns)
  then show ?thesis
    using new(2) by (intro that [of ?cls' ?self new]) simp_all
qed

lemma init_appends:
  assumes "init C cls article d df0 = Inr (cls', self)"
  shows "map snd (cls_sentence_scores cls') = map snd (cls_sentence_scores cls) @ sentences self"
proof -
  obtain c s new where r: "init C cls article d df0 = Inr (c, s)"
    "list_all2 (\<lambda>x e. sentence_score C (cls_word_frequency c) (d + 1) (document_frequency s) x
                       = Inr (fst e) \<and> snd e = x) (sentences s) new"
    "cls_sentence_scores c =
       map (weighted_entry C (length (cls_sentence_scores cls @ new)))
         (enumerate 0 (cls_sentence_scores cls @ new))"
    by (rule init_result)
  from r(1) assms have "c = cls'" "s = self" by simp_all
  with r(2,3) show ?thesis
    by (simp add: map_snd_weighted scored_sentences del: map_map)
qed

lemma init_ranked_mset:
  assumes "init C cls article d df0 = Inr (cls', self)"
  shows "mset (ranked_sentences self) =
           mset (map snd (cls_sentence_scores cls)) + mset (sentences self)"
proof -
  obtain c s where r: "init C cls article d df0 = Inr (c, s)"
    "sentence_scores s = sorted_reverse fst (cls_sentence_scores c)"
    "ranked_sentences s = map snd (sentence_scores s)"
    by (rule init_result)
  from r(1) assms have eq: "c = cls'" "s = self" by simp_all
  have "mset (ranked_sentences self) = mset (map snd (cls_sentence_scores cls'))"
    using r(2,3) unfolding eq by (simp add: mset_sorted_reverse)
  then show ?thesis
    by (simp add: init_appends [OF assms])
qed

text \<open>First construction in a process: the ranking is a rearrangement of the sentences.\<close>

lemma init_fresh_ranked:
  assumes "init C cls article d df0 = Inr (cls', self)" and "cls_sentence_scores cls = []"
  shows "mset (ranked_sentences self) = mset (sentences self)"
    and "length (ranked_sentences self) = length (sentences self)"
proof -
  show m: "mset (ranked_sentences self) = mset (sentences self)"
    using init_ranked_mset [OF assms(1)] assms(2) by simp
  show "length (ranked_sentences self) = length (sentences self)"
    using m by (rule mset_eq_length)
qed

section \<open>What the counting loops compute\<close>

lemma count_words_set:
  "set (snd (count_words ws acc)) = set (snd acc) \<union> set ws"
  by (induction ws acc rule: count_words.induct) auto

lemma count_words_distinct:
  "distinct (snd acc) \<Longrightarrow> distinct (snd (count_words ws acc))"
  by (induction ws acc rule: count_words.induct) auto

lemma count_sentences_set:
  "set (snd (count_sentences C ss acc)) =
     set (snd acc) \<union> set (concat (map (\<lambda>s. tokenize_word C s True) ss))"
  by (induction ss arbitrary: acc) (auto simp: count_words_set)

lemma count_sentences_distinct:
  "distinct (snd acc) \<Longrightarrow> distinct (snd (count_sentences C ss acc))"
  by (induction ss arbitrary: acc) (auto simp: count_words_distinct)

lemma count_documents_apply:
  "distinct ws \<Longrightarrow>
   count_documents ws df w =
     (if w \<in> set ws then Some ((case df w of None \<Rightarrow> 0 | Some c \<Rightarrow> c) + 1) else df w)"
  by (induction ws arbitrary: df) (auto split: option.splits)

text \<open>The order in which the set is traversed does not matter.\<close>

lemma count_documents_order:
  "distinct xs \<Longrightarrow> distinct ys \<Longrightarrow> set xs = set ys \<Longrightarrow>
   count_documents xs df = count_documents ys df"
  by (rule ext) (simp add: count_documents_apply)

lemma count_words_frequency:
  "fst (count_words ws acc) w =
     (if w \<in> set ws then Some ((case fst acc w of None \<Rightarrow> 0 | Some c \<Rightarrow> c) + int (count_list ws w))
      else fst acc w)"
  by (induction ws acc rule: count_words.induct) (auto split: option.splits)

lemma count_sentences_frequency:
  "fst (count_sentences C ss acc) w =
     (if w \<in> set (concat (map (\<lambda>s. tokenize_word C s True) ss))
      then Some ((case fst acc w of None \<Rightarrow> 0 | Some c \<Rightarrow> c)
                 + int (count_list (concat (map (\<lambda>s. tokenize_word C s True) ss)) w))
      else fst acc w)"
proof (induction ss arbitrary: acc)
  case Nil
  then show ?case by simp
next
  case (Cons s ss)
  show ?case
    by (simp add: Cons.IH count_words_frequency count_list_0_iff)
qed

text \<open>
  After any construction the table of the class holds what it held before plus the
  occurrences in the article, and the ranking holds one sentence for every entry the
  list of the class held before plus one for every sentence of the article.
\<close>

lemma init_word_frequency:
  assumes "init C cls article d df0 = Inr (cls', self)"
  shows "cls_word_frequency cls' w =
     (if w \<in> set (article_words C article)
      then Some ((case cls_word_frequency cls w of None \<Rightarrow> 0 | Some c \<Rightarrow> c)
                 + int (count_list (article_words C article) w))
      else cls_word_frequency cls w)"
proof -
  obtain c s where r: "init C cls article d df0 = Inr (c, s)"
    "sentences s = tokenize_sentence C article"
    "cls_word_frequency c = fst (count_sentences C (sentences s) (cls_word_frequency cls, []))"
    by (rule init_result)
  from r(1) assms have "c = cls'" by simp
  with r(2,3) show ?thesis
    by (simp add: count_sentences_frequency article_words_def)
qed

lemma init_ranked_length:
  assumes "init C cls article d df0 = Inr (cls', self)"
  shows "length (ranked_sentences self) = length (cls_sentence_scores cls) + length (sentences self)"
  using init_ranked_mset [OF assms, THEN arg_cong, of size] by simp

lemma filter_eq_append_ConsD:
  "filter P ys = us @ x # vs \<Longrightarrow>
   \<exists>ys1 ys2. ys = ys1 @ x # ys2 \<and> filter P ys1 = us \<and> filter P ys2 = vs"
proof (induction ys arbitrary: us)
  case Nil
  then show ?case by simp
next
  case (Cons y ys)
  show ?case
  proof (cases "P y")
    case False
    with Cons.prems have "filter P ys = us @ x # vs" by simp
    then obtain ys1 ys2 where "ys = ys1 @ x # ys2" "filter P ys1 = us" "filter P ys2 = vs"
      using Cons.IH by blast
    with False show ?thesis
      by (intro exI [of _ "y # ys1"] exI [of _ ys2]) simp
  next
    case True
    with Cons.prems have eq: "y # filter P ys = us @ x # vs" by simp
    show ?thesis
    proof (cases us)
      case Nil
      with eq show ?thesis
        by (intro exI [of _ "[]"] exI [of _ ys]) simp
    next
      case (Cons u us')
      with eq have "u = y" "filter P ys = us' @ x # vs" by simp_all
      then obtain ys1 ys2 where "ys = ys1 @ x # ys2" "filter P ys1 = us'" "filter P ys2 = vs"
        using Cons.IH by blast
      with True Cons \<open>u = y\<close> show ?thesis
        by (intro exI [of _ "y # ys1"] exI [of _ ys2]) simp
    qed
  qed
qed


lemma filter_keeps_order:
  assumes "filter P ys = filter P xs" and "i < j" and "j < length xs"
    and "P (xs ! i)" and "P (xs ! j)"
  shows "\<exists>a b. a < b \<and> b < length ys \<and> ys ! a = xs ! i \<and> ys ! b = xs ! j"
proof -
  let ?zs = "drop (Suc i) xs"
  let ?k = "j - Suc i"
  have i: "i < length xs" using assms(2,3) by simp
  have k: "?k < length ?zs" using assms(2,3) by simp
  have zk: "?zs ! ?k = xs ! j" using assms(2,3) by simp
  have xs: "xs = take i xs @ xs ! i # ?zs"
    by (rule id_take_nth_drop [OF i])
  have zs: "?zs = take ?k ?zs @ xs ! j # drop (Suc ?k) ?zs"
    using id_take_nth_drop [OF k] unfolding zk .
  note assms(1)
  also have "filter P xs = filter P (take i xs @ xs ! i # ?zs)"
    using xs by (rule arg_cong)
  also have "\<dots> = filter P (take i xs) @ xs ! i # filter P ?zs"
    using assms(4) by simp
  finally have "\<exists>ys1 ys2. ys = ys1 @ xs ! i # ys2 \<and> filter P ys1 = filter P (take i xs)
                  \<and> filter P ys2 = filter P ?zs"
    by (rule filter_eq_append_ConsD)
  then obtain ys1 ys2 where y1: "ys = ys1 @ xs ! i # ys2" and y2: "filter P ys2 = filter P ?zs"
    by (elim exE conjE)
  note y2
  also have "filter P ?zs = filter P (take ?k ?zs @ xs ! j # drop (Suc ?k) ?zs)"
    using zs by (rule arg_cong)
  also have "\<dots> = filter P (take ?k ?zs) @ xs ! j # filter P (drop (Suc ?k) ?zs)"
    using assms(5) by simp
  finally have "\<exists>ys3 ys4. ys2 = ys3 @ xs ! j # ys4 \<and> filter P ys3 = filter P (take ?k ?zs)
                  \<and> filter P ys4 = filter P (drop (Suc ?k) ?zs)"
    by (rule filter_eq_append_ConsD)
  then obtain ys3 ys4 where y3: "ys2 = ys3 @ xs ! j # ys4"
    by (elim exE conjE)
  have a: "ys ! length ys1 = xs ! i"
    by (simp add: y1)
  have b: "ys ! (length ys1 + Suc (length ys3)) = xs ! j"
    unfolding y1 y3 by (simp add: nth_append)
  have c: "length ys1 + Suc (length ys3) < length ys"
    unfolding y1 y3 by simp
  show ?thesis
    using a b c
    by (intro exI [of _ "length ys1"] exI [of _ "length ys1 + Suc (length ys3)"]) simp
qed

section \<open>The count that \<open>idf\<close> is given\<close>

lemma score_sentences_idf:
  "score_sentences (C\<lparr>idf := \<lambda>word n df. idf C word dn df\<rparr>) word_frequency dn df ss scores
   = score_sentences C word_frequency dn df ss scores"
  by (induction ss arbitrary: scores)
    (simp_all add: sentence_score_def word_score_def py_truediv_def Let_def cong: sum.case_cong)

lemma count_sentences_idf:
  "count_sentences (C\<lparr>idf := g\<rparr>) ss acc = count_sentences C ss acc"
  by (induction ss arbitrary: acc) simp_all

lemma weigh_from_idf:
  "weigh_from (C\<lparr>idf := g\<rparr>) n i es = weigh_from C n i es"
  by (induction es arbitrary: i)
    (simp_all add: py_int_truediv_def position_weight_def cong: sum.case_cong)

text \<open>
  Whatever \<open>idf\<close> does for other counts does not matter: the construction is the same when
  \<open>idf\<close> is replaced by the function that ignores the count it is given and uses \<open>d + 1\<close>.
\<close>

lemma init_idf_count_only:
  "init (C\<lparr>idf := \<lambda>word n df. idf C word (d + 1) df\<rparr>) cls article d df0
   = init C cls article d df0"
  by (simp add: init_def Let_def count_sentences_idf score_sentences_idf weigh_from_idf
        weigh_sentences_by_position_def cong: sum.case_cong)

section \<open>The concrete runs, evaluated\<close>

lemmas eval_defs = init_def example_def fresh_class_def Let_def sentence_score_def word_score_def
  py_truediv_def py_int_truediv_def weigh_sentences_by_position_def position_weight_def
  sorted_reverse_def

lemma py_int_zero: "- 1 < x \<Longrightarrow> x < 1 \<Longrightarrow> py_int x = 0"
  unfolding py_int_def by (auto simp: floor_eq_iff ceiling_eq_iff)

lemma first_run_result:
  "first_run = Inr
     (\<lparr>cls_sentence_scores = [(0.51, ''a a a'')], cls_word_frequency = [''a'' \<mapsto> 3]\<rparr>,
      \<lparr>sentences = [''a a a''], document_number = 1, document_frequency = [''a'' \<mapsto> 1],
       sentence_scores = [(0.51, ''a a a'')], ranked_sentences = [''a a a'']\<rparr>)"
  by (simp add: first_run_def eval_defs)

lemma second_run_result:
  "second_run = Inr
     (\<lparr>cls_sentence_scores = [(0.0867, ''a a a''), (0.08, ''b'')],
       cls_word_frequency = [''a'' \<mapsto> 3, ''b'' \<mapsto> 1]\<rparr>,
      \<lparr>sentences = [''b''], document_number = 2,
       document_frequency = [''a'' \<mapsto> 1, ''b'' \<mapsto> 1],
       sentence_scores = [(0.0867, ''a a a''), (0.08, ''b'')],
       ranked_sentences = [''a a a'', ''b'']\<rparr>)"
  by (simp add: second_run_def first_state_def first_run_result eval_defs)

lemma short_run_result:
  "short_run = Inr
     (\<lparr>cls_sentence_scores = [(0.17, ''a''), (0.04, ''b'')],
       cls_word_frequency = [''a'' \<mapsto> 1, ''b'' \<mapsto> 1]\<rparr>,
      \<lparr>sentences = [''a'', ''b''], document_number = 1,
       document_frequency = [''b'' \<mapsto> 1, ''a'' \<mapsto> 1],
       sentence_scores = [(0.17, ''a''), (0.04, ''b'')],
       ranked_sentences = [''a'', ''b'']\<rparr>)"
  by (simp add: short_run_def eval_defs)

lemma tie_run_result:
  "tie_run = Inr
     (\<lparr>cls_sentence_scores = [(0, '' ''), (0, ''  ''), (0.06, ''a'')],
       cls_word_frequency = [''a'' \<mapsto> 1]\<rparr>,
      \<lparr>sentences = ['' '', ''  '', ''a''], document_number = 1,
       document_frequency = [''a'' \<mapsto> 1],
       sentence_scores = [(0.06, ''a''), (0, '' ''), (0, ''  '')],
       ranked_sentences = [''a'', '' '', ''  '']\<rparr>)"
  by (simp add: tie_run_def eval_defs)

section \<open>Ranking is a rearrangement (C1)\<close>

text \<open>
  C1. After construction \<open>ranked_sentences\<close> should have the length of \<open>sentences\<close>
  and hold the same sentences. By \<open>init_fresh_ranked\<close> this is so for the first
  construction in a process. The list \<open>__sentence_scores\<close> belongs to the class and is
  never emptied, so every later construction ranks the sentences of all earlier
  articles as well (\<open>init_ranked_mset\<close>). The theorem runs the code on the articles
  \<open>a a a\<close> and then \<open>b\<close>: the second instance has one sentence and two ranked
  sentences, the first of which is not in its article.
\<close>

theorem second_instance_ranks_earlier_article:
  "second_run = Inr second_state \<and>
   sentences (snd second_state) = [''b''] \<and>
   ranked_sentences (snd second_state) = [''a a a'', ''b'']"
  by (simp add: second_state_def second_run_result)

section \<open>The word-frequency table (C2)\<close>

text \<open>
  C2. The table used for term frequency should count the current article only and
  start empty at every construction. The dictionary \<open>__word_frequency\<close> belongs to the
  class and is only ever added to (\<open>init_word_frequency\<close>): in the run of \<open>a a a\<close> and
  then \<open>b\<close>, the table with which the sentence of the second article is scored still
  counts \<open>a\<close> three times, though \<open>a\<close> is not a word of that article.
\<close>

theorem second_instance_counts_earlier_words:
  "second_run = Inr second_state \<and>
   article_words example ''b'' = [''b''] \<and>
   cls_word_frequency (fst first_state) ''a'' = Some 3 \<and>
   cls_word_frequency (fst second_state) ''a'' = Some 3 \<and>
   cls_word_frequency (fst second_state) ''b'' = Some 1"
  by (simp add: second_state_def second_run_result first_state_def first_run_result
        article_words_def example_def)

section \<open>Positional weights (C3)\<close>

text \<open>
  The chain of conditionals is the step table of the specification, for every
  position; the loop multiplies the score of the entry at index \<open>i\<close> of a list of \<open>n\<close>
  entries by the table's weight for \<open>i / n\<close> and keeps the order of the entries; and in
  the first construction of a process the entry at index \<open>i\<close> is the \<open>i\<close>-th sentence of
  the article.
\<close>

lemma position_weight_table:
  "position_weight C x = table_lookup (float_literal C 0.15) (weight_table C) x"
  by (simp add: position_weight_def weight_table_def)

lemma weigh_entry:
  assumes "weigh_sentences_by_position C es = Inr ws" and "i < length es"
  shows "ws ! i =
           (float_mul C (fst (es ! i))
              (table_lookup (float_literal C 0.15) (weight_table C)
                 (int_truediv C (int i) (int (length es)))),
            snd (es ! i))"
    and "length ws = length es"
proof -
  have ws: "ws = map (weighted_entry C (length es)) (enumerate 0 es)"
    using assms(1) by (simp add: weigh_returns)
  show "ws ! i =
           (float_mul C (fst (es ! i))
              (table_lookup (float_literal C 0.15) (weight_table C)
                 (int_truediv C (int i) (int (length es)))),
            snd (es ! i))"
    using assms(2) by (simp add: ws nth_enumerate_eq weighted_entry_def position_weight_table)
  show "length ws = length es"
    by (simp add: ws)
qed

lemma init_fresh_weights:
  assumes "init C cls article d df0 = Inr (cls', self)" and "cls_sentence_scores cls = []"
    and "i < length (sentences self)"
  shows "\<exists>raw. sentence_score C (cls_word_frequency cls') (d + 1) (document_frequency self)
                 (sentences self ! i) = Inr raw \<and>
           cls_sentence_scores cls' ! i =
             (float_mul C raw
                (table_lookup (float_literal C 0.15) (weight_table C)
                   (int_truediv C (int i) (int (length (sentences self))))),
              sentences self ! i)"
proof -
  obtain c s new where r: "init C cls article d df0 = Inr (c, s)"
    "list_all2 (\<lambda>x e. sentence_score C (cls_word_frequency c) (d + 1) (document_frequency s) x
                       = Inr (fst e) \<and> snd e = x) (sentences s) new"
    "cls_sentence_scores c =
       map (weighted_entry C (length (cls_sentence_scores cls @ new)))
         (enumerate 0 (cls_sentence_scores cls @ new))"
    by (rule init_result)
  from r(1) assms(1) have eq: "c = cls'" "s = self" by simp_all
  have len: "length new = length (sentences self)"
    using r(2) unfolding eq by (simp add: list_all2_lengthD)
  have raw: "sentence_score C (cls_word_frequency cls') (d + 1) (document_frequency self)
               (sentences self ! i) = Inr (fst (new ! i))" and snd: "snd (new ! i) = sentences self ! i"
    using list_all2_nthD [OF r(2) [unfolded eq] assms(3)] by simp_all
  have "cls_sentence_scores cls' ! i =
          (float_mul C (fst (new ! i))
             (table_lookup (float_literal C 0.15) (weight_table C)
                (int_truediv C (int i) (int (length (sentences self))))),
           sentences self ! i)"
    using assms(2,3) len snd
    by (simp add: r(3) [unfolded eq] nth_enumerate_eq weighted_entry_def position_weight_table)
  with raw show ?thesis by blast
qed

text \<open>
  C3. The weight of a sentence should be the table's weight for its position in its own
  article. The loop runs over the list of the class, which in any construction but
  the first begins with the entries of the earlier articles. In the run of \<open>a a a\<close> and
  then \<open>b\<close>, the only sentence of the second article has raw score 2 and stands at
  position 0 of 1, where the table gives 0.17; it is weighted as index 1 of 2, by 0.04.
\<close>

theorem second_instance_weight_shifted:
  "second_run = Inr second_state \<and>
   sentences (snd second_state) = [''b''] \<and>
   sentence_score example (cls_word_frequency (fst second_state))
     (document_number (snd second_state)) (document_frequency (snd second_state)) ''b'' = Inr 2 \<and>
   cls_sentence_scores (fst second_state) ! 1 = (2 * position_weight example (1 / 2), ''b'') \<and>
   position_weight example (1 / 2) = 0.04 \<and>
   position_weight example (0 / 1) = 0.17"
  by (simp add: second_state_def second_run_result position_weight_def sentence_score_def
        word_score_def example_def py_truediv_def)

section \<open>Non-positive percentages (C4)\<close>

text \<open>
  C4 as stated: every percentage less than or equal to 0 gives an empty result. It fails
  for the first article \<open>a.b\<close> of a process at percentage -50: \<open>-50 / 100\<close> is \<open>-0.5\<close> and
  \<open>-0.5 * 2\<close> is \<open>-1.0\<close>, both without rounding, so \<open>n\<close> is \<open>int(-1.0) = -1\<close>; the slice
  \<open>ranked_sentences[0:-1]\<close> drops the last ranked sentence and keeps the first, and the
  result is that sentence.
\<close>

theorem negative_percentage_selects:
  "short_run = Inr short_state \<and>
   sentences (snd short_state) = [''a'', ''b''] \<and>
   (- 50 :: real) \<le> 0 \<and>
   top_n example (snd short_state) (- 50) = - 1 \<and>
   fst (get_top_sentences example short_state (- 50)) = [''a'']"
  by (simp add: short_state_def short_run_result get_top_sentences_def top_n_def example_def
        py_int_def py_slice_to_def Let_def ceiling_def)

lemma zero_laws_example: "zero_laws example N"
  by (simp add: zero_laws_def example_def py_int_def)

text \<open>
  C4, amended: for every article, every float arithmetic and every percentage, with
  \<open>n = int(percentage / 100 * len(sentences))\<close> as the code computes it:
  if \<open>n\<close> is 0, as it is for percentage 0, the result is empty; if \<open>n\<close> is negative, the
  result is the sentences found among the first \<open>len(ranked_sentences) + n\<close> ranked
  sentences, so it is empty when \<open>n \<le> -len(ranked_sentences)\<close>, and not empty when
  \<open>-len(sentences) < n < 0\<close> and \<open>ranked_sentences\<close> is a rearrangement of \<open>sentences\<close> (as
  after the first construction in a process, \<open>init_fresh_ranked\<close>).
\<close>

theorem get_top_sentences_nonpositive:
  "(top_n C (snd st) percentage = 0 \<longrightarrow> fst (get_top_sentences C st percentage) = []) \<and>
   (top_n C (snd st) percentage < 0 \<longrightarrow>
      fst (get_top_sentences C st percentage) =
        filter (\<lambda>sentence. sentence \<in> set
                  (take (nat (int (length (ranked_sentences (snd st))) + top_n C (snd st) percentage))
                     (ranked_sentences (snd st))))
          (sentences (snd st))) \<and>
   (top_n C (snd st) percentage \<le> - int (length (ranked_sentences (snd st))) \<longrightarrow>
      fst (get_top_sentences C st percentage) = []) \<and>
   (mset (ranked_sentences (snd st)) = mset (sentences (snd st)) \<and>
    - int (length (sentences (snd st))) < top_n C (snd st) percentage \<and>
    top_n C (snd st) percentage < 0 \<longrightarrow>
      fst (get_top_sentences C st percentage) \<noteq> []) \<and>
   (zero_laws C (length (sentences (snd st))) \<and> percentage = float_int C 0 \<longrightarrow>
      top_n C (snd st) percentage = 0 \<and> fst (get_top_sentences C st percentage) = [])"
proof -
  let ?n = "top_n C (snd st) percentage"
  let ?ranked = "ranked_sentences (snd st)"
  let ?sents = "sentences (snd st)"
  let ?result = "fst (get_top_sentences C st percentage)"
  have result: "?result = filter (\<lambda>sentence. sentence \<in> set (py_slice_to ?ranked ?n)) ?sents"
    by (simp add: get_top_sentences_def Let_def)
  have zero: "?result = []" if "?n = 0"
    using that by (simp add: result py_slice_to_def)
  have neg: "?result = filter (\<lambda>sentence. sentence \<in> set (take (nat (int (length ?ranked) + ?n)) ?ranked))
               ?sents" if "?n < 0"
    using that by (simp add: result py_slice_to_def)
  have low: "?result = []" if "?n \<le> - int (length ?ranked)"
  proof (cases "?n < 0")
    case True
    with that show ?thesis by (simp add: neg)
  next
    case False
    with that have "?n = 0" by simp
    then show ?thesis by (rule zero)
  qed
  have some: "?result \<noteq> []"
    if h: "mset ?ranked = mset ?sents \<and> - int (length ?sents) < ?n \<and> ?n < 0"
  proof -
    from h have m: "mset ?ranked = mset ?sents" and lo: "- int (length ?sents) < ?n" and n: "?n < 0"
      by blast+
    have len: "length ?ranked = length ?sents"
      using m by (rule mset_eq_length)
    have set_eq: "set ?ranked = set ?sents"
      using m by (rule mset_eq_setD)
    let ?k = "nat (int (length ?ranked) + ?n)"
    have k: "0 < ?k" using lo len by simp
    then have ne: "?ranked \<noteq> []" using n by auto
    then have "hd ?ranked \<in> set (take ?k ?ranked)"
      using k by (cases ?ranked) (auto simp: take_Cons')
    moreover have "hd ?ranked \<in> set ?sents"
      using ne set_eq by (metis hd_in_set)
    ultimately have "filter (\<lambda>sentence. sentence \<in> set (take ?k ?ranked)) ?sents \<noteq> []"
      by (auto simp: filter_empty_conv)
    then show ?thesis by (simp add: neg [OF n])
  qed
  have at_zero: "?n = 0 \<and> ?result = []"
    if h: "zero_laws C (length ?sents) \<and> percentage = float_int C 0"
  proof -
    from h have "?n = 0"
      unfolding top_n_def zero_laws_def by simp
    with zero show ?thesis by simp
  qed
  have c1: "?n = 0 \<longrightarrow> ?result = []"
    using zero by (rule impI)
  have c2: "?n < 0 \<longrightarrow>
      ?result = filter (\<lambda>sentence. sentence \<in> set (take (nat (int (length ?ranked) + ?n)) ?ranked))
                  ?sents"
    using neg by (rule impI)
  have c3: "?n \<le> - int (length ?ranked) \<longrightarrow> ?result = []"
    using low by (rule impI)
  have c4: "mset ?ranked = mset ?sents \<and> - int (length ?sents) < ?n \<and> ?n < 0 \<longrightarrow> ?result \<noteq> []"
    using some by (rule impI)
  have c5: "zero_laws C (length ?sents) \<and> percentage = float_int C 0 \<longrightarrow> ?n = 0 \<and> ?result = []"
    using at_zero by (rule impI)
  show ?thesis
    by (intro conjI c1 c2 c3 c4 c5)
qed

theorem get_top_sentences_nonpositive_witness:
  "zero_laws example (length (sentences (snd short_state))) \<and>
   sentences (snd short_state) = [''a'', ''b''] \<and>
   ranked_sentences (snd short_state) = [''a'', ''b''] \<and>
   top_n example (snd short_state) 0 = 0 \<and>
   fst (get_top_sentences example short_state 0) = [] \<and>
   top_n example (snd short_state) (- 10) = 0 \<and>
   fst (get_top_sentences example short_state (- 10)) = [] \<and>
   top_n example (snd short_state) (- 120) = - 2 \<and>
   fst (get_top_sentences example short_state (- 120)) = [] \<and>
   top_n example (snd short_state) (- 50) = - 1 \<and>
   fst (get_top_sentences example short_state (- 50)) \<noteq> []"
proof -
  have s: "sentences (snd short_state) = [''a'', ''b'']"
    and r: "ranked_sentences (snd short_state) = [''a'', ''b'']"
    by (simp_all add: short_state_def short_run_result)
  have n: "top_n example (snd short_state) 0 = 0" "top_n example (snd short_state) (- 10) = 0"
    "top_n example (snd short_state) (- 120) = - 2" "top_n example (snd short_state) (- 50) = - 1"
    by (simp_all add: top_n_def s example_def py_int_def ceiling_def)
  have z: "(0 :: real) = float_int example 0"
    by (simp add: example_def)
  have "fst (get_top_sentences example short_state 0) = []"
    using get_top_sentences_nonpositive [of example short_state 0] zero_laws_example z by simp
  moreover have "fst (get_top_sentences example short_state (- 10)) = []"
    using get_top_sentences_nonpositive [of example short_state "- 10"] n by simp
  moreover have "fst (get_top_sentences example short_state (- 120)) = []"
    using get_top_sentences_nonpositive [of example short_state "- 120"] n r by simp
  moreover have "fst (get_top_sentences example short_state (- 50)) \<noteq> []"
    using get_top_sentences_nonpositive [of example short_state "- 50"] n r s by simp
  ultimately show ?thesis
    using zero_laws_example [of "length (sentences (snd short_state))"] s r n by simp
qed

section \<open>Percentages from 100 (C5)\<close>

text \<open>
  When \<open>ranked_sentences\<close> holds every sentence of \<open>sentences\<close> and is not longer, a call
  in which \<open>n\<close> is at least the number of sentences selects the whole article in its
  order; that is the case after the first construction in a process. In exact arithmetic
  every percentage from 100 gives such an \<open>n\<close>.
\<close>

lemma get_top_sentences_all:
  assumes "int (length (sentences (snd st))) \<le> top_n C (snd st) percentage"
    and "set (sentences (snd st)) \<subseteq> set (ranked_sentences (snd st))"
    and "length (ranked_sentences (snd st)) \<le> length (sentences (snd st))"
  shows "fst (get_top_sentences C st percentage) = sentences (snd st)"
proof -
  have "py_slice_to (ranked_sentences (snd st)) (top_n C (snd st) percentage)
          = ranked_sentences (snd st)"
    using assms(1,3) by (simp add: py_slice_to_def)
  then show ?thesis
    using assms(2) by (auto simp: get_top_sentences_def Let_def filter_id_conv)
qed

lemma top_n_exact_full:
  assumes "100 \<le> percentage"
  shows "int (length (sentences self)) \<le> top_n example self percentage"
proof -
  let ?N = "length (sentences self)"
  let ?x = "percentage / 100 * real ?N"
  have "1 * real ?N \<le> ?x"
    using assms by (intro mult_right_mono) simp_all
  then have x: "real ?N \<le> ?x" by simp
  then have "0 \<le> ?x" by (meson of_nat_0_le_iff order_trans)
  then have "py_int ?x = \<lfloor>?x\<rfloor>" by (simp add: py_int_def)
  moreover have "int ?N \<le> \<lfloor>?x\<rfloor>" using x by (simp add: le_floor_iff)
  ultimately show ?thesis by (simp add: top_n_def example_def)
qed

lemma init_fresh_top_all:
  assumes "init C cls article d df0 = Inr (cls', self)" and "cls_sentence_scores cls = []"
    and "int (length (sentences self)) \<le> top_n C self percentage"
  shows "fst (get_top_sentences C (cls', self) percentage) = sentences self"
proof -
  have m: "mset (ranked_sentences self) = mset (sentences self)"
    and l: "length (ranked_sentences self) = length (sentences self)"
    using init_fresh_ranked [OF assms(1,2)] by simp_all
  have "set (sentences self) = set (ranked_sentences self)"
    using m by (metis set_mset_mset)
  then show ?thesis
    using get_top_sentences_all [of "(cls', self)" C percentage] assms(3) l by simp
qed

text \<open>
  C5. A percentage of 100 or more should return the whole article. \<open>n\<close> is computed
  from \<open>len(self.sentences)\<close> and cuts \<open>ranked_sentences\<close>, which after a second
  construction also holds the sentences of the first article. In the run of \<open>a a a\<close> and
  then \<open>b\<close>, \<open>n\<close> is 1, the one top-ranked sentence is the one of the first article, and
  the second instance returns no sentence at all for 100 percent.
\<close>

theorem second_instance_full_percentage_empty:
  "second_run = Inr second_state \<and>
   sentences (snd second_state) = [''b''] \<and>
   ranked_sentences (snd second_state) = [''a a a'', ''b''] \<and>
   top_n example (snd second_state) 100 = 1 \<and>
   fst (get_top_sentences example second_state 100) = []"
  by (simp add: second_state_def second_run_result get_top_sentences_def top_n_def example_def
        py_int_def py_slice_to_def Let_def)

section \<open>Sentences without words (C6)\<close>

text \<open>
  C6. For a sentence whose noun-filtered tokenization is empty, \<open>__sentence_score\<close>
  returns the \<open>int\<close> 0 and the entry recorded for it before the weighting has score 0. No
  division takes place: the division by the number of words, had it been reached,
  would have raised \<open>ZeroDivisionError\<close> whatever the total.
\<close>

theorem zero_words_score_zero:
  assumes "tokenize_word C sentence True = []"
  shows "sentence_score C word_frequency dn df sentence = Inr (float_int C 0) \<and>
         score_sentences C word_frequency dn df [sentence] scores
           = Inr (scores @ [(float_int C 0, sentence)]) \<and>
         (\<forall>total. py_truediv C total (int (length (tokenize_word C sentence True)))
                    = Inl ZeroDivisionError)"
  using assms by (simp add: sentence_score_def py_truediv_def)

theorem zero_words_score_zero_witness:
  "tokenize_word example '' '' True = [] \<and>
   sentence_score example Map.empty 1 Map.empty '' '' = Inr 0 \<and>
   score_sentences example Map.empty 1 Map.empty ['' ''] [] = Inr [(0, '' '')]"
proof -
  have h: "tokenize_word example '' '' True = []"
    by (simp add: example_def)
  have z: "float_int example 0 = 0"
    by (simp add: example_def)
  show ?thesis
    using h zero_words_score_zero [OF h, of Map.empty 1 Map.empty "[]"] by (simp add: z)
qed

section \<open>Document frequency (C7)\<close>

text \<open>
  C7. Every construction returns, and leaves in the caller's dictionary, for each word:
  the old count plus exactly 1 (1 for a new key) when the word occurs anywhere in the
  article, however often, and the old entry otherwise. No entry decreases and none
  grows by more than 1.
\<close>

theorem document_frequency_presence:
  "\<exists>cls' self. init C cls article d df0 = Inr (cls', self) \<and>
     (\<forall>word. document_frequency self word =
        (if word \<in> set (article_words C article)
         then Some ((case df0 word of None \<Rightarrow> 0 | Some c \<Rightarrow> c) + 1)
         else df0 word)) \<and>
     (\<forall>word c. df0 word = Some c \<longrightarrow>
        (\<exists>c'. document_frequency self word = Some c' \<and> c \<le> c' \<and> c' \<le> c + 1))"
proof -
  obtain cls' self where r: "init C cls article d df0 = Inr (cls', self)"
    "sentences self = tokenize_sentence C article"
    "document_frequency self =
       count_documents (snd (count_sentences C (sentences self) (cls_word_frequency cls, []))) df0"
    by (rule init_result)
  let ?ws = "snd (count_sentences C (sentences self) (cls_word_frequency cls, []))"
  have d: "distinct ?ws"
    by (rule count_sentences_distinct) simp
  have s: "set ?ws = set (article_words C article)"
    by (simp add: count_sentences_set article_words_def r(2))
  have eq: "document_frequency self word =
        (if word \<in> set (article_words C article)
         then Some ((case df0 word of None \<Rightarrow> 0 | Some c \<Rightarrow> c) + 1)
         else df0 word)" for word
    unfolding r(3) count_documents_apply [OF d] s ..
  have mono: "\<exists>c'. document_frequency self word = Some c' \<and> c \<le> c' \<and> c' \<le> c + 1"
    if "df0 word = Some c" for word c
    using that by (simp add: eq)
  from r(1) eq mono show ?thesis by blast
qed

theorem document_frequency_presence_witness:
  "\<exists>cls' self. init example fresh_class ''a b. b'' 0 [''b'' \<mapsto> 4] = Inr (cls', self) \<and>
     document_frequency self ''a'' = Some 1 \<and> document_frequency self ''b'' = Some 5 \<and>
     document_frequency self ''c'' = None"
proof -
  have w: "article_words example ''a b. b'' = [''a'', ''b'', ''b'']"
    by (simp add: article_words_def example_def)
  obtain cls' self where r: "init example fresh_class ''a b. b'' 0 [''b'' \<mapsto> 4] = Inr (cls', self)"
     "\<forall>word. document_frequency self word =
        (if word \<in> set (article_words example ''a b. b'')
         then Some ((case [''b'' \<mapsto> 4] word of None \<Rightarrow> 0 | Some c \<Rightarrow> c) + 1)
         else [''b'' \<mapsto> 4] word)"
    using document_frequency_presence [of example fresh_class "''a b. b''" 0 "[''b'' \<mapsto> 4]"]
    by blast
  have "document_frequency self ''a'' = Some 1" "document_frequency self ''b'' = Some 5"
    "document_frequency self ''c'' = None"
    by (simp_all add: r(2) w)
  with r(1) show ?thesis by blast
qed

section \<open>The document count in idf (C8)\<close>

text \<open>
  C8. For input \<open>document_number = d\<close> the instance holds \<open>d + 1\<close>, and every call of
  \<open>idf\<close> made by the construction passes \<open>d + 1\<close>, with the dictionary as already
  updated for this article: the entry recorded for each sentence is \<open>mean_tf_idf\<close> at
  \<open>d + 1\<close>, that is the mean over its words of \<open>tf(word, word_frequency)\<close> times
  \<open>idf(word, d + 1, document_frequency)\<close>, for every \<open>tf\<close>, \<open>idf\<close> and float arithmetic;
  the list of the class is these entries, after the earlier ones, weighted by position,
  and the ranking is its descending sort.
\<close>

theorem idf_document_count:
  "\<exists>cls' self new.
     init C cls article d df0 = Inr (cls', self) \<and>
     sentences self = tokenize_sentence C article \<and>
     document_number self = d + 1 \<and>
     list_all2
       (\<lambda>sentence entry.
          entry = (mean_tf_idf C (cls_word_frequency cls') (d + 1) (document_frequency self) sentence,
                   sentence))
       (sentences self) new \<and>
     cls_sentence_scores cls' =
       map (weighted_entry C (length (cls_sentence_scores cls @ new)))
         (enumerate 0 (cls_sentence_scores cls @ new)) \<and>
     sentence_scores self = sorted_reverse fst (cls_sentence_scores cls') \<and>
     ranked_sentences self = map snd (sentence_scores self)"
proof -
  obtain cls' self new where r: "init C cls article d df0 = Inr (cls', self)"
    "sentences self = tokenize_sentence C article"
    "document_number self = d + 1"
    "list_all2 (\<lambda>s e. sentence_score C (cls_word_frequency cls') (d + 1) (document_frequency self) s
                       = Inr (fst e) \<and> snd e = s) (sentences self) new"
    "cls_sentence_scores cls' =
       map (weighted_entry C (length (cls_sentence_scores cls @ new)))
         (enumerate 0 (cls_sentence_scores cls @ new))"
    "sentence_scores self = sorted_reverse fst (cls_sentence_scores cls')"
    "ranked_sentences self = map snd (sentence_scores self)"
    by (rule init_result)
  have "list_all2
       (\<lambda>sentence entry.
          entry = (mean_tf_idf C (cls_word_frequency cls') (d + 1) (document_frequency self) sentence,
                   sentence))
       (sentences self) new"
    using r(4) by (rule list_all2_mono) (simp add: sentence_score_mean prod_eq_iff)
  with r(1,2,3,5,6,7) show ?thesis
    by (intro exI [of _ cls'] exI [of _ self] exI [of _ new] conjI)
qed

text \<open>With an \<open>idf\<close> that returns the count it is given, the count shows in the score.\<close>

theorem idf_document_count_witness:
  "\<exists>cls' self.
     init (example\<lparr>idf := \<lambda>word n df. real_of_int n\<rparr>) fresh_class ''a'' 6 Map.empty
       = Inr (cls', self) \<and>
     document_number self = 7 \<and>
     cls_sentence_scores cls' = [(7 * 0.17, ''a'')]"
proof -
  let ?C = "example\<lparr>idf := \<lambda>word n df. real_of_int n\<rparr>"
  obtain cls' self new where r:
    "init ?C fresh_class ''a'' 6 Map.empty = Inr (cls', self)"
    "sentences self = tokenize_sentence ?C ''a''"
    "document_number self = 6 + 1"
    "list_all2
       (\<lambda>sentence entry.
          entry = (mean_tf_idf ?C (cls_word_frequency cls') (6 + 1) (document_frequency self) sentence,
                   sentence))
       (sentences self) new"
    "cls_sentence_scores cls' =
       map (weighted_entry ?C (length (cls_sentence_scores (fresh_class :: real class_attrs) @ new)))
         (enumerate 0 (cls_sentence_scores fresh_class @ new))"
    using idf_document_count [of ?C fresh_class "''a''" 6 Map.empty] by blast
  have s: "sentences self = [''a'']"
    by (simp add: r(2) example_def)
  have wf: "cls_word_frequency cls' ''a'' = Some 1"
    using init_word_frequency [OF r(1), of "''a''"]
    by (simp add: article_words_def example_def fresh_class_def)
  have m: "mean_tf_idf ?C (cls_word_frequency cls') 7 (document_frequency self) ''a'' = 7"
    by (simp add: mean_tf_idf_def example_def wf)
  have new: "new = [(7, ''a'')]"
    using r(4) unfolding s by (simp add: list_all2_Cons1 m)
  have "cls_sentence_scores cls' = [(7 * 0.17, ''a'')]"
    by (simp add: r(5) new fresh_class_def weighted_entry_def position_weight_def example_def)
  with r(1,3) show ?thesis by simp
qed

section \<open>Stability of the ranking (C9)\<close>

text \<open>
  C9. The scores are the floats the construction computes, whatever the rounding of the
  operations. \<open>cls_sentence_scores cls'\<close> is the list of weighted entries in the order in
  which they were appended, as it stands when it is sorted; its sentences are those of
  the earlier entries of the class followed by \<open>sentences\<close> (just \<open>sentences\<close> in the
  first construction of a process). The sorted list is a rearrangement of it and is
  descending, for every score the entries with that score stand in the sorted list in
  their order of appending, and so any two entries with equal scores keep their
  relative order. \<open>ranked_sentences\<close> is the sentence column of the sorted list.
\<close>

theorem ranking_stable:
  "\<exists>cls' self. init C cls article d df0 = Inr (cls', self) \<and>
     ranked_sentences self = map snd (sentence_scores self) \<and>
     map snd (cls_sentence_scores cls') = map snd (cls_sentence_scores cls) @ sentences self \<and>
     mset (sentence_scores self) = mset (cls_sentence_scores cls') \<and>
     sorted (rev (map fst (sentence_scores self))) \<and>
     (\<forall>k. filter (\<lambda>entry. fst entry = k) (sentence_scores self)
           = filter (\<lambda>entry. fst entry = k) (cls_sentence_scores cls')) \<and>
     (\<forall>i j. i < j \<and> j < length (cls_sentence_scores cls') \<and>
            fst (cls_sentence_scores cls' ! i) = fst (cls_sentence_scores cls' ! j) \<longrightarrow>
        (\<exists>a b. a < b \<and> b < length (sentence_scores self) \<and>
               sentence_scores self ! a = cls_sentence_scores cls' ! i \<and>
               sentence_scores self ! b = cls_sentence_scores cls' ! j))"
proof -
  obtain cls' self where r: "init C cls article d df0 = Inr (cls', self)"
    "sentence_scores self = sorted_reverse fst (cls_sentence_scores cls')"
    "ranked_sentences self = map snd (sentence_scores self)"
    by (rule init_result)
  let ?pre = "cls_sentence_scores cls'"
  have stable: "filter (\<lambda>entry. fst entry = k) (sentence_scores self)
                = filter (\<lambda>entry. fst entry = k) ?pre" for k
    unfolding r(2) by (rule sorted_reverse_stable)
  have order: "\<exists>a b. a < b \<and> b < length (sentence_scores self) \<and>
               sentence_scores self ! a = ?pre ! i \<and> sentence_scores self ! b = ?pre ! j"
    if h: "i < j \<and> j < length ?pre \<and> fst (?pre ! i) = fst (?pre ! j)" for i j
  proof (rule filter_keeps_order [where P = "\<lambda>entry. fst entry = fst (?pre ! j)"])
    show "filter (\<lambda>entry. fst entry = fst (?pre ! j)) (sentence_scores self)
          = filter (\<lambda>entry. fst entry = fst (?pre ! j)) ?pre"
      by (rule stable)
    show "i < j" "j < length ?pre" "fst (?pre ! i) = fst (?pre ! j)"
      using h by blast+
    show "fst (?pre ! j) = fst (?pre ! j)" ..
  qed
  have desc: "sorted (rev (map fst (sentence_scores self)))"
    unfolding r(2) by (rule sorted_reverse_descending)
  have perm: "mset (sentence_scores self) = mset ?pre"
    unfolding r(2) by (rule mset_sorted_reverse)
  show ?thesis
  proof (intro exI [of _ cls'] exI [of _ self] conjI allI impI)
    show "init C cls article d df0 = Inr (cls', self)"
      by (rule r(1))
    show "ranked_sentences self = map snd (sentence_scores self)"
      by (rule r(3))
    show "map snd ?pre = map snd (cls_sentence_scores cls) @ sentences self"
      by (rule init_appends [OF r(1)])
    show "mset (sentence_scores self) = mset ?pre"
      by (rule perm)
    show "sorted (rev (map fst (sentence_scores self)))"
      by (rule desc)
    show "filter (\<lambda>entry. fst entry = k) (sentence_scores self)
          = filter (\<lambda>entry. fst entry = k) ?pre" for k
      by (rule stable)
    show "\<exists>a b. a < b \<and> b < length (sentence_scores self) \<and>
               sentence_scores self ! a = ?pre ! i \<and> sentence_scores self ! b = ?pre ! j"
      if "i < j \<and> j < length ?pre \<and> fst (?pre ! i) = fst (?pre ! j)" for i j
      using that by (rule order)
  qed
qed

theorem ranking_stable_witness:
  "\<exists>cls' self. init example fresh_class '' .  .a'' 0 Map.empty = Inr (cls', self) \<and>
     sentences self = ['' '', ''  '', ''a''] \<and>
     cls_sentence_scores cls' = [(0, '' ''), (0, ''  ''), (0.06, ''a'')] \<and>
     ranked_sentences self = [''a'', '' '', ''  '']"
  using ranking_stable [of example fresh_class "'' .  .a''" 0 Map.empty] tie_run_result
  by (simp add: tie_run_def)

section \<open>\<open>get_top_sentences\<close> changes nothing (C10)\<close>

text \<open>
  C10. The state after \<open>get_top_sentences\<close> (the attributes of the class, and the
  instance with its sentences, ranked sentences, document count and the dictionary of
  document frequencies) is the state before it, and a second call with the same
  percentage returns what the first returned.
\<close>

theorem get_top_sentences_frame:
  "snd (get_top_sentences C st percentage) = st \<and>
   fst (get_top_sentences C (snd (get_top_sentences C st percentage)) percentage)
     = fst (get_top_sentences C st percentage)"
  by (simp add: get_top_sentences_def Let_def)

end
